theory Spec2Isabelle
  imports
    Complex_Main
    "HOL-Library.AList"
    "HOL-Library.Char_ord"
    "HOL-Library.List_Lexorder"
    "HOL-Library.Product_Lexorder"
begin

section \<open>UCLA Assignment Exporter: a shallow embedding of \<^verbatim>\<open>app.py\<close>\<close>

text \<open>
  The script reads a payroll table and an assignment roster, keeps the payroll rows of
  one client, sums hours per (employee name, pay rate), looks the assignment number up
  in the roster and writes an export workbook. Each stage of the script is a function
  below, named after the Python function or variable it embeds.
\<close>

subsection \<open>Errors\<close>

text \<open>
  \<^verbatim>\<open>ValueError\<close> is what the script raises itself; \<^verbatim>\<open>OverflowError\<close> is what
  \<^verbatim>\<open>date - timedelta\<close> raises when the result would lie before \<^verbatim>\<open>date.min\<close>;
  \<^verbatim>\<open>KeyError\<close> is what pandas raises when a column that is read does not exist.
\<close>

datatype error = OverflowError | ValueError string | KeyError string

subsection \<open>Calendar dates\<close>

text \<open>
  A \<^verbatim>\<open>datetime.date\<close> is a triple of year, month and day in the proleptic Gregorian
  calendar, between 0001-01-01 and 9999-12-31. \<open>toordinal\<close>, \<open>weekday\<close> and the
  tables behind them follow CPython's \<^verbatim>\<open>datetime\<close> module: day 1 is 0001-01-01,
  \<open>weekday\<close> is \<open>(toordinal + 6) mod 7\<close> with Monday 0 and Sunday 6.
\<close>

record date =
  year :: nat
  month :: nat
  day :: nat

definition is_leap :: "nat \<Rightarrow> bool" where
  "is_leap y = (y mod 4 = 0 \<and> (y mod 100 \<noteq> 0 \<or> y mod 400 = 0))"

definition days_in_month :: "nat \<Rightarrow> nat \<Rightarrow> nat" where
  "days_in_month y m =
     (if m = 2 then (if is_leap y then 29 else 28)
      else if m = 4 \<or> m = 6 \<or> m = 9 \<or> m = 11 then 30 else 31)"

definition valid_date :: "date \<Rightarrow> bool" where
  "valid_date d = (1 \<le> year d \<and> year d \<le> 9999 \<and> 1 \<le> month d \<and> month d \<le> 12
                   \<and> 1 \<le> day d \<and> day d \<le> days_in_month (year d) (month d))"

definition days_before_year :: "nat \<Rightarrow> nat" where
  "days_before_year y = (let p = y - 1 in p * 365 + p div 4 - p div 100 + p div 400)"

definition days_before_month :: "nat \<Rightarrow> nat \<Rightarrow> nat" where
  "days_before_month y m =
     [0, 0, 31, 59, 90, 120, 151, 181, 212, 243, 273, 304, 334] ! m
       + (if 2 < m \<and> is_leap y then 1 else 0)"

definition toordinal :: "date \<Rightarrow> nat" where
  "toordinal d = days_before_year (year d) + days_before_month (year d) (month d) + day d"

definition weekday :: "date \<Rightarrow> nat" where
  "weekday d = (toordinal d + 6) mod 7"

text \<open>
  \<^verbatim>\<open>d - timedelta(days=1)\<close>: the previous calendar day. Python raises
  \<^verbatim>\<open>OverflowError\<close> (date value out of range) at 0001-01-01.
\<close>

definition minus_one_day :: "date \<Rightarrow> error + date" where
  "minus_one_day d =
     (if 1 < day d then Inr (d\<lparr>day := day d - 1\<rparr>)
      else if 1 < month d then
        Inr (d\<lparr>month := month d - 1, day := days_in_month (year d) (month d - 1)\<rparr>)
      else if 1 < year d then Inr (d\<lparr>year := year d - 1, month := 12, day := 31\<rparr>)
      else Inl OverflowError)"

subsection \<open>\<^verbatim>\<open>most_recent_sunday\<close>\<close>

text \<open>
  \<^verbatim>\<open>
  d = anchor
  while d.weekday() != 6:
      d -= timedelta(days=1)
  return d
  \<close>
  The loop steps back one day at a time. The variable \<^verbatim>\<open>days_back\<close> of the source is
  computed and never used, so it has no counterpart here. \<^verbatim>\<open>date.today()\<close> is the
  parameter \<open>today\<close>.
\<close>

function step_back_to_sunday :: "date \<Rightarrow> error + date" where
  "step_back_to_sunday d =
     (if weekday d = 6 then Inr d
      else (case minus_one_day d of
              Inl e \<Rightarrow> Inl e
            | Inr d' \<Rightarrow> step_back_to_sunday d'))"
  by pat_completeness auto
termination
  by (relation "measures [year, month, day]")
     (auto simp add: minus_one_day_def split: if_splits)

declare step_back_to_sunday.simps [simp del]

definition most_recent_sunday :: "date \<Rightarrow> date option \<Rightarrow> error + date" where
  "most_recent_sunday today anchor =
     step_back_to_sunday (case anchor of None \<Rightarrow> today | Some a \<Rightarrow> a)"

subsection \<open>Strings\<close>

text \<open>
  A Python \<^verbatim>\<open>str\<close> is a list of characters; a character of the model is a code point
  below 256. \<open>is_space\<close> is \<^verbatim>\<open>str.isspace\<close> on that range, which is also what the
  regular expression \<^verbatim>\<open>\s\<close> and \<^verbatim>\<open>str.strip()\<close> use: tab to carriage return, the
  separators 28 to 31, the space, and the two Latin-1 spaces 133 and 160.
  \<open>lower_char\<close> is \<^verbatim>\<open>str.lower\<close> on one character: the letters A to Z and the
  Latin-1 capitals 192 to 222 (without the multiplication sign 215) move up by 32,
  which sets the sixth bit.
\<close>

definition is_space :: "char \<Rightarrow> bool" where
  "is_space c = (let n = (of_char c :: nat) in
     (9 \<le> n \<and> n \<le> 13) \<or> (28 \<le> n \<and> n \<le> 32) \<or> n = 133 \<or> n = 160)"

fun lower_char :: "char \<Rightarrow> char" where
  "lower_char (Char b0 b1 b2 b3 b4 b5 b6 b7) =
     (let n = (of_char (Char b0 b1 b2 b3 b4 b5 b6 b7) :: nat) in
      if (65 \<le> n \<and> n \<le> 90) \<or> (192 \<le> n \<and> n \<le> 222 \<and> n \<noteq> 215)
      then Char b0 b1 b2 b3 b4 True b6 b7
      else Char b0 b1 b2 b3 b4 b5 b6 b7)"

definition lower :: "string \<Rightarrow> string" where
  "lower s = map lower_char s"

text \<open>\<^verbatim>\<open>sub in s\<close> for strings: \<open>sub\<close> occurs in \<open>s\<close> as a contiguous block.\<close>

fun str_contains :: "string \<Rightarrow> string \<Rightarrow> bool" where
  "str_contains sub [] = (sub = [])"
| "str_contains sub (c # cs) = (take (length sub) (c # cs) = sub \<or> str_contains sub cs)"

text \<open>\<^verbatim>\<open>s.strip()\<close>, and its right half.\<close>

definition rstrip :: "string \<Rightarrow> string" where
  "rstrip s = rev (dropWhile is_space (rev s))"

definition strip :: "string \<Rightarrow> string" where
  "strip s = rev (dropWhile is_space (rev (dropWhile is_space s)))"

text \<open>
  \<^verbatim>\<open>re.sub(r"\s+", " ", s)\<close>: scanning from the left, every maximal run of whitespace
  is replaced by one space.
\<close>

function collapse_ws :: "string \<Rightarrow> string" where
  "collapse_ws [] = []"
| "collapse_ws (c # cs) =
     (if is_space c then CHR '' '' # collapse_ws (dropWhile is_space cs)
      else c # collapse_ws cs)"
  by pat_completeness auto
termination
  by (relation "measure length") (auto simp add: length_dropWhile_le less_Suc_eq_le)

text \<open>
  \<^verbatim>\<open>.str.replace(r"\s+", " ", regex=True).str.strip()\<close> on one value: the
  canonicalisation that \<^verbatim>\<open>normalize_name_parts\<close> ends with and that the script
  repeats for the roster's \<^verbatim>\<open>_name\<close> and the summary's \<^verbatim>\<open>_name\<close>.
\<close>

definition canonicalize :: "string \<Rightarrow> string" where
  "canonicalize s = strip (collapse_ws s)"

text \<open>
  What a canonical string looks like, stated without the functions above: every
  whitespace character is a space and is followed by a character that is not
  whitespace (\<open>ws_collapsed\<close>), and the string neither starts nor ends with whitespace.
\<close>

fun ws_collapsed :: "string \<Rightarrow> bool" where
  "ws_collapsed [] = True"
| "ws_collapsed [c] = (is_space c \<longrightarrow> c = CHR '' '')"
| "ws_collapsed (c # d # cs) =
     ((is_space c \<longrightarrow> c = CHR '' '' \<and> \<not> is_space d) \<and> ws_collapsed (d # cs))"

definition ws_normalized :: "string \<Rightarrow> bool" where
  "ws_normalized s =
     (ws_collapsed s \<and> (s = [] \<or> (\<not> is_space (hd s) \<and> \<not> is_space (last s))))"

text \<open>
  The words of a string, as \<^verbatim>\<open>s.split()\<close> gives them, and \<^verbatim>\<open>" ".join(words)\<close>. They
  say what the canonical form of a string is without naming how it is computed.
\<close>

function wsplit :: "string \<Rightarrow> string list" where
  "wsplit s =
     (case dropWhile is_space s of
        [] \<Rightarrow> []
      | c # cs \<Rightarrow> (c # takeWhile (\<lambda>x. \<not> is_space x) cs)
                   # wsplit (dropWhile (\<lambda>x. \<not> is_space x) cs))"
  by pat_completeness auto
termination
proof (relation "measure length", goal_cases)
  case 1
  show ?case by simp
next
  case (2 s c cs)
  have "length (dropWhile (\<lambda>x. \<not> is_space x) cs) \<le> length cs"
    by (rule length_dropWhile_le)
  moreover have "length (c # cs) \<le> length s"
    using 2 length_dropWhile_le[of is_space s] by simp
  ultimately show ?case by simp
qed

declare wsplit.simps [simp del]

fun join_space :: "string list \<Rightarrow> string" where
  "join_space [] = []"
| "join_space [w] = w"
| "join_space (w # v # ws) = w @ CHR '' '' # join_space (v # ws)"

subsection \<open>\<^verbatim>\<open>infer_column\<close>\<close>

text \<open>
  \<^verbatim>\<open>cols_lower = {c.lower(): c for c in df.columns}\<close>. A Python dict keeps the
  position of a key's first insertion and the value of its last, which is what
  \<open>AList.update\<close> does on an association list.
\<close>

definition cols_lower :: "string list \<Rightarrow> (string \<times> string) list" where
  "cols_lower cols = foldl (\<lambda>m c. AList.update (lower c) c m) [] cols"

text \<open>
  \<^verbatim>\<open>
  for cand in candidates:
      if cand.lower() in cols_lower:
          return cols_lower[cand.lower()]
      for k, v in cols_lower.items():
          if cand.lower() in k:
              return v
  return None
  \<close>
\<close>

fun infer_column_loop :: "(string \<times> string) list \<Rightarrow> string list \<Rightarrow> string option" where
  "infer_column_loop m [] = None"
| "infer_column_loop m (cand # cands) =
     (case map_of m (lower cand) of
        Some v \<Rightarrow> Some v
      | None \<Rightarrow>
          (case find (\<lambda>(k, v). str_contains (lower cand) k) m of
             Some (k, v) \<Rightarrow> Some v
           | None \<Rightarrow> infer_column_loop m cands))"

definition infer_column :: "string list \<Rightarrow> string list \<Rightarrow> string option" where
  "infer_column cols candidates = infer_column_loop (cols_lower cols) candidates"



subsection \<open>Cells and tables\<close>

text \<open>
  A cell of a data frame is a string, an integer, a float or \<^verbatim>\<open>None\<close>. A float is a
  finite value, an infinity or NaN; NaN is pandas' missing value. A finite float is
  represented by the rational number it stands for: rounding to 64 bits is not
  modelled, so the equalities the model proves between finite values are those of exact
  arithmetic.
\<close>

datatype pyfloat = Finite rat | PosInf | NegInf | NaN

datatype cell = CStr string | CInt int | CFloat pyfloat | CNone

definition digit_char :: "nat \<Rightarrow> char" where
  "digit_char n = ''0123456789'' ! n"

text \<open>The decimal digits of a natural number, as \<^verbatim>\<open>str\<close> and \<^verbatim>\<open>format\<close> print them.\<close>

function dec :: "nat \<Rightarrow> string" where
  "dec n = (if n < 10 then [digit_char n] else dec (n div 10) @ [digit_char (n mod 10)])"
  by pat_completeness auto
termination
  by (relation "measure id") auto

declare dec.simps [simp del]

definition str_int :: "int \<Rightarrow> string" where
  "str_int i = (if i < 0 then CHR ''-'' # dec (nat (- i)) else dec (nat i))"

text \<open>
  \<^verbatim>\<open>str(x)\<close>. The shortest round-trip representation that Python prints for a finite
  float depends on its 64-bit value, so it is the parameter \<open>float_repr\<close>.
\<close>

fun py_str :: "(rat \<Rightarrow> string) \<Rightarrow> cell \<Rightarrow> string" where
  "py_str float_repr (CStr s) = s"
| "py_str float_repr (CInt i) = str_int i"
| "py_str float_repr (CFloat (Finite q)) = float_repr q"
| "py_str float_repr (CFloat PosInf) = ''inf''"
| "py_str float_repr (CFloat NegInf) = ''-inf''"
| "py_str float_repr (CFloat NaN) = ''nan''"
| "py_str float_repr CNone = ''None''"

text \<open>
  A data frame: its column names, in order, and its rows; a row gives the cell of each
  column name. \<^verbatim>\<open>read_any_table\<close> has made the names strings and stripped them.
\<close>

record table =
  columns :: "string list"
  rows :: "(string \<Rightarrow> cell) list"

text \<open>\<^verbatim>\<open>df[c].astype(str)\<close>\<close>

definition astype_str :: "(rat \<Rightarrow> string) \<Rightarrow> table \<Rightarrow> string \<Rightarrow> string list" where
  "astype_str float_repr df c = map (\<lambda>r. py_str float_repr (r c)) (rows df)"

subsection \<open>\<^verbatim>\<open>normalize_name_parts\<close>\<close>

text \<open>
  \<^verbatim>\<open>col and col in df.columns\<close>: the argument is neither \<^verbatim>\<open>None\<close> nor the empty
  string, and it names a column.
\<close>

definition usable :: "table \<Rightarrow> string option \<Rightarrow> bool" where
  "usable df col =
     (case col of None \<Rightarrow> False | Some c \<Rightarrow> c \<noteq> [] \<and> c \<in> set (columns df))"

definition name_error :: error where
  "name_error = ValueError
     ''Could not determine employee name columns. Please map them in the sidebar.''"

text \<open>
  The three sources are tried in the order of the source's \<^verbatim>\<open>if\<close>, \<^verbatim>\<open>elif\<close> and
  \<^verbatim>\<open>else\<close>; \<open>the\<close> is applied only under \<open>usable\<close>, which excludes \<open>None\<close>.
\<close>

definition normalize_name_parts ::
  "(rat \<Rightarrow> string) \<Rightarrow> table \<Rightarrow> string option \<Rightarrow> string option \<Rightarrow> string option
     \<Rightarrow> error + string list" where
  "normalize_name_parts float_repr df first_col last_col full_col =
     (case
        (if usable df full_col then
           Inr (astype_str float_repr df (the full_col))
         else if usable df first_col \<and> usable df last_col then
           Inr (map2 (\<lambda>a b. strip a @ '' '' @ strip b)
                  (astype_str float_repr df (the first_col))
                  (astype_str float_repr df (the last_col)))
         else
           (case infer_column (columns df) [''employee name'', ''name''] of
              Some guessed \<Rightarrow>
                if guessed \<noteq> [] then Inr (astype_str float_repr df guessed)
                else Inl name_error
            | None \<Rightarrow> Inl name_error))
      of
        Inl e \<Rightarrow> Inl e
      | Inr names \<Rightarrow> Inr (map canonicalize names))"

text \<open>
  The join key \<^verbatim>\<open>_name\<close> of one value:
  \<^verbatim>\<open>.astype(str).str.replace(r"\s+", " ", regex=True).str.strip()\<close>. The script applies
  it to the roster's name column and to the summary's \<^verbatim>\<open>Employee Name\<close>.
\<close>

definition name_key :: "(rat \<Rightarrow> string) \<Rightarrow> cell \<Rightarrow> string" where
  "name_key float_repr x = canonicalize (py_str float_repr x)"

subsection \<open>\<^verbatim>\<open>to_num\<close>\<close>

text \<open>
  \<^verbatim>\<open>float(s)\<close> on a string, after CPython's \<^verbatim>\<open>PyFloat_FromString\<close>: the two Latin-1
  spaces become ASCII spaces; an underscore is accepted only between two digits and is
  then dropped; ASCII whitespace is stripped at both ends; what remains is an optional
  sign followed by \<^verbatim>\<open>inf\<close>, \<^verbatim>\<open>infinity\<close> or \<^verbatim>\<open>nan\<close> in any case, or by a decimal
  literal: digits with an optional point (at least one digit before or after it) and an
  optional exponent. \<open>None\<close> is the \<^verbatim>\<open>ValueError\<close>. The value of a literal is its exact
  rational value.
\<close>

definition is_digit :: "char \<Rightarrow> bool" where
  "is_digit c = (let n = (of_char c :: nat) in 48 \<le> n \<and> n \<le> 57)"

definition digit_val :: "char \<Rightarrow> nat" where
  "digit_val c = of_char c - 48"

definition digits_val :: "string \<Rightarrow> nat" where
  "digits_val s = foldl (\<lambda>a c. 10 * a + digit_val c) 0 s"

definition c_isspace :: "char \<Rightarrow> bool" where
  "c_isspace c = (let n = (of_char c :: nat) in (9 \<le> n \<and> n \<le> 13) \<or> n = 32)"

definition to_ascii_space :: "char \<Rightarrow> char" where
  "to_ascii_space c =
     (let n = (of_char c :: nat) in if n = 133 \<or> n = 160 then CHR '' '' else c)"

fun underscores_ok :: "char \<Rightarrow> string \<Rightarrow> bool" where
  "underscores_ok prev [] = (prev \<noteq> CHR ''_'')"
| "underscores_ok prev (c # cs) =
     ((if c = CHR ''_'' then is_digit prev else (prev = CHR ''_'' \<longrightarrow> is_digit c))
      \<and> underscores_ok c cs)"

definition split_sign :: "string \<Rightarrow> bool \<times> string" where
  "split_sign s =
     (case s of
        [] \<Rightarrow> (False, [])
      | c # r \<Rightarrow> if c = CHR ''-'' then (True, r)
                 else if c = CHR ''+'' then (False, r)
                 else (False, c # r))"

definition pow10 :: "int \<Rightarrow> rat" where
  "pow10 k = (if 0 \<le> k then 10 ^ nat k else 1 / 10 ^ nat (- k))"

definition parse_exponent :: "string \<Rightarrow> int option" where
  "parse_exponent s =
     (case s of
        [] \<Rightarrow> Some 0
      | c # t \<Rightarrow>
          if c = CHR ''e'' \<or> c = CHR ''E'' then
            (case split_sign t of
               (eneg, ds) \<Rightarrow>
                 if ds \<noteq> [] \<and> list_all is_digit ds
                 then Some (if eneg then - int (digits_val ds) else int (digits_val ds))
                 else None)
          else None)"

definition parse_decimal :: "bool \<Rightarrow> string \<Rightarrow> pyfloat option" where
  "parse_decimal neg r =
     (let ip = takeWhile is_digit r;
          r1 = dropWhile is_digit r;
          fp = (case r1 of
                  [] \<Rightarrow> []
                | c # t \<Rightarrow> if c = CHR ''.'' then takeWhile is_digit t else []);
          r2 = (case r1 of
                  [] \<Rightarrow> []
                | c # t \<Rightarrow> if c = CHR ''.'' then dropWhile is_digit t else r1)
      in if ip = [] \<and> fp = [] then None
         else (case parse_exponent r2 of
                 None \<Rightarrow> None
               | Some e \<Rightarrow>
                   Some (Finite ((if neg then - 1 else 1) * of_nat (digits_val (ip @ fp))
                                   * pow10 (e - int (length fp))))))"

definition parse_float :: "string \<Rightarrow> pyfloat option" where
  "parse_float s =
     (let t = map to_ascii_space s in
      if \<not> underscores_ok (CHR 0x00) t then None
      else
        let u = filter (\<lambda>c. c \<noteq> CHR ''_'') t;
            v = rev (dropWhile c_isspace (rev (dropWhile c_isspace u)))
        in (case split_sign v of
              (neg, r) \<Rightarrow>
                if lower r = ''inf'' \<or> lower r = ''infinity''
                then Some (if neg then NegInf else PosInf)
                else if lower r = ''nan'' then Some NaN
                else parse_decimal neg r))"

text \<open>
  \<^verbatim>\<open>
  def to_num(x):
      try:
          return float(str(x).replace(",", ""))
      except Exception:
          return np.nan
  \<close>
\<close>

definition to_num :: "(rat \<Rightarrow> string) \<Rightarrow> cell \<Rightarrow> pyfloat" where
  "to_num float_repr x =
     (case parse_float (filter (\<lambda>c. c \<noteq> CHR '','') (py_str float_repr x)) of
        None \<Rightarrow> NaN
      | Some f \<Rightarrow> f)"

text \<open>\<^verbatim>\<open>.fillna(0.0)\<close> on one value.\<close>

definition fillna0 :: "pyfloat \<Rightarrow> pyfloat" where
  "fillna0 f = (if f = NaN then Finite 0 else f)"

subsection \<open>Filtering the payroll to the client\<close>

text \<open>
  \<^verbatim>\<open>Series.str.contains(pat, case=False, na=False)\<close> on one value, for a pattern
  without regular-expression operators: a string matches when it contains the pattern
  up to case, and a value that is not a string gives \<^verbatim>\<open>na\<close>, here \<open>False\<close>.
\<close>

definition contains_ci :: "string \<Rightarrow> cell \<Rightarrow> bool" where
  "contains_ci pat x =
     (case x of CStr s \<Rightarrow> str_contains (lower pat) (lower s) | _ \<Rightarrow> False)"

text \<open>
  \<^verbatim>\<open>df[c] = f(df[c])\<close> and \<^verbatim>\<open>df[c] = f(df)\<close>: an assignment to a column updates the cell
  of that name in every row, and appends the name to the columns when it is new.
\<close>

definition map_column :: "string \<Rightarrow> (cell \<Rightarrow> cell) \<Rightarrow> table \<Rightarrow> table" where
  "map_column c f df = df\<lparr>rows := map (\<lambda>r. r(c := f (r c))) (rows df)\<rparr>"

definition add_column :: "string \<Rightarrow> ((string \<Rightarrow> cell) \<Rightarrow> cell) \<Rightarrow> table \<Rightarrow> table" where
  "add_column c f df =
     \<lparr>columns = (if c \<in> set (columns df) then columns df else columns df @ [c]),
      rows = map (\<lambda>r. r(c := f r)) (rows df)\<rparr>"

text \<open>
  \<^verbatim>\<open>
  payroll_df[client_col] = payroll_df[client_col].astype(str)
  mask_ucla = payroll_df[client_col].str.contains("UCLA", case=False, na=False)
  payroll_ucla = payroll_df.loc[mask_ucla].copy()
  \<close>
\<close>

definition mask_ucla :: "table \<Rightarrow> string \<Rightarrow> bool list" where
  "mask_ucla df client_col = map (\<lambda>r. contains_ci ''UCLA'' (r client_col)) (rows df)"

definition payroll_ucla :: "(rat \<Rightarrow> string) \<Rightarrow> table \<Rightarrow> string \<Rightarrow> error + table" where
  "payroll_ucla float_repr payroll_df client_col =
     (if client_col \<notin> set (columns payroll_df) then Inl (KeyError client_col)
      else
        let df = map_column client_col (\<lambda>x. CStr (py_str float_repr x)) payroll_df
        in Inr (df\<lparr>rows := map fst (filter snd (zip (rows df) (mask_ucla df client_col)))\<rparr>))"

subsection \<open>Hours per row\<close>

text \<open>
  Addition of two floats, without rounding: NaN absorbs, opposite infinities give NaN.
\<close>

fun fadd :: "pyfloat \<Rightarrow> pyfloat \<Rightarrow> pyfloat" where
  "fadd (Finite a) (Finite b) = Finite (a + b)"
| "fadd NaN y = NaN"
| "fadd x NaN = NaN"
| "fadd PosInf NegInf = NaN"
| "fadd NegInf PosInf = NaN"
| "fadd PosInf y = PosInf"
| "fadd x PosInf = PosInf"
| "fadd NegInf y = NegInf"
| "fadd x NegInf = NegInf"

text \<open>The value of a cell of a float column.\<close>

definition num_of :: "cell \<Rightarrow> pyfloat" where
  "num_of x = (case x of CFloat f \<Rightarrow> f | _ \<Rightarrow> NaN)"

definition hours_error :: "string \<Rightarrow> error" where
  "hours_error c = ValueError (''Missing hours column: '' @ c)"

definition payrate_error :: error where
  "payrate_error = ValueError
     ''Could not find Pay Rate column in Payroll. Map it in the sidebar.''"

text \<open>
  Steps 2 and 3 of the script, on the filtered payroll. The assignments to columns are
  made in the order of the source, each on the table the previous one left, so a column
  that plays two roles is read as the script reads it.
  \<^verbatim>\<open>
  payroll_ucla["Employee Name"] = normalize_name_parts(...)
  for c in (reg_col, ot_col, dt_col):
      if c not in payroll_ucla.columns: raise ValueError(f"Missing hours column: {c}")
  payroll_ucla[reg_col] = payroll_ucla[reg_col].apply(to_num).fillna(0.0)
  payroll_ucla[ot_col]  = payroll_ucla[ot_col].apply(to_num).fillna(0.0)
  payroll_ucla[dt_col]  = payroll_ucla[dt_col].apply(to_num).fillna(0.0)
  if payrate_col not in payroll_ucla.columns: raise ValueError(...)
  payroll_ucla["Pay Rate"] = payroll_ucla[payrate_col].apply(to_num)
  payroll_ucla["Hours"] = payroll_ucla[reg_col] + payroll_ucla[ot_col] + payroll_ucla[dt_col]
  \<close>
\<close>

definition prepare_payroll ::
  "(rat \<Rightarrow> string) \<Rightarrow> table \<Rightarrow> string \<Rightarrow> string \<Rightarrow> string \<Rightarrow> string
     \<Rightarrow> string option \<Rightarrow> string option \<Rightarrow> string option \<Rightarrow> error + table" where
  "prepare_payroll float_repr ucla reg_col ot_col dt_col payrate_col first_col last_col full_col =
     (case normalize_name_parts float_repr ucla first_col last_col full_col of
        Inl e \<Rightarrow> Inl e
      | Inr names \<Rightarrow>
          let t1 = \<lparr>columns = (if ''Employee Name'' \<in> set (columns ucla) then columns ucla
                                else columns ucla @ [''Employee Name'']),
                    rows = map2 (\<lambda>r n. r(''Employee Name'' := CStr n)) (rows ucla) names\<rparr>
          in
          if reg_col \<notin> set (columns t1) then Inl (hours_error reg_col)
          else if ot_col \<notin> set (columns t1) then Inl (hours_error ot_col)
          else if dt_col \<notin> set (columns t1) then Inl (hours_error dt_col)
          else
            let t2 = map_column reg_col (\<lambda>x. CFloat (fillna0 (to_num float_repr x))) t1;
                t3 = map_column ot_col (\<lambda>x. CFloat (fillna0 (to_num float_repr x))) t2;
                t4 = map_column dt_col (\<lambda>x. CFloat (fillna0 (to_num float_repr x))) t3
            in
            if payrate_col \<notin> set (columns t4) then Inl payrate_error
            else
              let t5 = add_column ''Pay Rate''
                         (\<lambda>r. CFloat (to_num float_repr (r payrate_col))) t4;
                  t6 = add_column ''Hours''
                         (\<lambda>r. CFloat (fadd (fadd (num_of (r reg_col)) (num_of (r ot_col)))
                                          (num_of (r dt_col)))) t5
              in Inr t6)"

subsection \<open>Aggregation\<close>

text \<open>
  An aggregated row: the three columns that the group-by keeps. The employee name is
  the cell of the \<^verbatim>\<open>Employee Name\<close> column, a string unless the operator mapped an hours
  role to that column.
\<close>

record pay_record =
  EmployeeName :: cell
  PayRate :: pyfloat
  Hours :: pyfloat

definition group_key :: "pay_record \<Rightarrow> cell \<times> pyfloat" where
  "group_key g = (EmployeeName g, PayRate g)"

text \<open>
  \<^verbatim>\<open>groupby(["Employee Name", "Pay Rate"], dropna=False, as_index=False)["Hours"].sum()\<close>.
  Every row is added to the group of its key, a new group when the key is new; with
  \<^verbatim>\<open>dropna=False\<close> a missing pay rate is a key like any other. The sum of a group
  starts at 0.0 and skips NaN hours. The groups come out sorted by key, a missing pay
  rate after the others.
\<close>

definition nanadd :: "pyfloat \<Rightarrow> pyfloat \<Rightarrow> pyfloat" where
  "nanadd acc h = (if h = NaN then acc else fadd acc h)"

fun group_add :: "pay_record \<Rightarrow> pay_record list \<Rightarrow> pay_record list" where
  "group_add r [] = [r\<lparr>Hours := nanadd (Finite 0) (Hours r)\<rparr>]"
| "group_add r (g # gs) =
     (if group_key g = group_key r then g\<lparr>Hours := nanadd (Hours g) (Hours r)\<rparr> # gs
      else g # group_add r gs)"

definition rate_sort_key :: "pyfloat \<Rightarrow> nat \<times> rat" where
  "rate_sort_key f =
     (case f of NegInf \<Rightarrow> (0, 0) | Finite q \<Rightarrow> (1, q) | PosInf \<Rightarrow> (2, 0) | NaN \<Rightarrow> (3, 0))"

definition name_sort_key :: "cell \<Rightarrow> nat \<times> string \<times> nat \<times> rat" where
  "name_sort_key x =
     (case x of
        CStr s \<Rightarrow> (1, s, 0, 0)
      | CFloat f \<Rightarrow> (0, [], rate_sort_key f)
      | CInt i \<Rightarrow> (0, [], rate_sort_key (Finite (of_int i)))
      | CNone \<Rightarrow> (2, [], 0, 0))"

definition record_sort_key ::
  "pay_record \<Rightarrow> (nat \<times> string \<times> nat \<times> rat) \<times> nat \<times> rat" where
  "record_sort_key g = (name_sort_key (EmployeeName g), rate_sort_key (PayRate g))"

definition groupby_sum :: "pay_record list \<Rightarrow> pay_record list" where
  "groupby_sum rs = sort_key record_sort_key (foldl (\<lambda>acc r. group_add r acc) [] rs)"

definition payroll_records :: "table \<Rightarrow> pay_record list" where
  "payroll_records t =
     map (\<lambda>r. \<lparr>EmployeeName = r ''Employee Name'', PayRate = num_of (r ''Pay Rate''),
               Hours = num_of (r ''Hours'')\<rparr>) (rows t)"

definition summary :: "table \<Rightarrow> pay_record list" where
  "summary t = groupby_sum (payroll_records t)"



subsection \<open>The roster and the join\<close>

text \<open>
  \<^verbatim>\<open>drop_duplicates()\<close>: of the rows that are duplicates of each other the first is kept.
  Rows are compared by the codes that \<^verbatim>\<open>factorize\<close> gives to the values of each column:
  the missing values \<^verbatim>\<open>None\<close> and NaN share one code, and in a column of Python objects
  an int and a float of the same value are equal. \<open>dup_cell\<close> maps a cell to a
  representative of its code.
\<close>

definition dup_cell :: "cell \<Rightarrow> cell" where
  "dup_cell x = (case x of CNone \<Rightarrow> CFloat NaN
                 | CInt i \<Rightarrow> CFloat (Finite (of_int i))
                 | _ \<Rightarrow> x)"

definition entry_key :: "string \<times> pyfloat \<times> cell \<Rightarrow> string \<times> pyfloat \<times> cell" where
  "entry_key e = (case e of (n, q, a) \<Rightarrow> (n, q, dup_cell a))"

fun drop_duplicates :: "('a \<Rightarrow> 'b) \<Rightarrow> 'a list \<Rightarrow> 'a list" where
  "drop_duplicates key [] = []"
| "drop_duplicates key (x # xs) = x # drop_duplicates key (filter (\<lambda>y. key y \<noteq> key x) xs)"

text \<open>
  \<^verbatim>\<open>
  assign_df["_name"] = assign_df[assign_name_col].astype(str).str.replace(...).str.strip()
  assign_df["_rate"] = assign_df[assign_rate_col].apply(to_num)
  assign_df_slim = assign_df[["_name", "_rate", assign_no_col]].drop_duplicates()
  \<close>
  One roster row gives its normalised name, its coerced rate and its assignment number.
\<close>

definition roster_entry ::
  "(rat \<Rightarrow> string) \<Rightarrow> string \<Rightarrow> string \<Rightarrow> string \<Rightarrow> (string \<Rightarrow> cell)
     \<Rightarrow> string \<times> pyfloat \<times> cell" where
  "roster_entry float_repr name_col rate_col no_col r =
     (let n = name_key float_repr (r name_col);
          r1 = r(''_name'' := CStr n);
          q = to_num float_repr (r1 rate_col);
          r2 = r1(''_rate'' := CFloat q)
      in (n, q, r2 no_col))"

definition assign_df_slim ::
  "(rat \<Rightarrow> string) \<Rightarrow> table \<Rightarrow> string \<Rightarrow> string \<Rightarrow> string
     \<Rightarrow> (string \<times> pyfloat \<times> cell) list" where
  "assign_df_slim float_repr assign_df name_col rate_col no_col =
     drop_duplicates entry_key
       (map (roster_entry float_repr name_col rate_col no_col) (rows assign_df))"

text \<open>
  \<^verbatim>\<open>
  summary["_name"] = summary["Employee Name"].astype(str).str.replace(...).str.strip()
  summary["_rate"] = summary["Pay Rate"].apply(to_num)
  joined = summary.merge(assign_df_slim, how="left", left_on=["_name", "_rate"], ...)
  \<close>
  A left merge goes through the left rows in order; a left row gives one row per right
  row with an equal key, in the order of the right rows, and one row with missing right
  columns when there is none. Keys are compared as pandas compares merge keys: NaN
  equals NaN.
\<close>

definition summary_key :: "(rat \<Rightarrow> string) \<Rightarrow> pay_record \<Rightarrow> string \<times> pyfloat" where
  "summary_key float_repr g =
     (name_key float_repr (EmployeeName g), to_num float_repr (CFloat (PayRate g)))"

definition matches ::
  "(rat \<Rightarrow> string) \<Rightarrow> (string \<times> pyfloat \<times> cell) list \<Rightarrow> pay_record
     \<Rightarrow> (string \<times> pyfloat \<times> cell) list" where
  "matches float_repr slim g =
     filter (\<lambda>(n, q, a). (n, q) = summary_key float_repr g) slim"

definition merge_left ::
  "(rat \<Rightarrow> string) \<Rightarrow> pay_record list \<Rightarrow> (string \<times> pyfloat \<times> cell) list
     \<Rightarrow> (pay_record \<times> cell) list" where
  "merge_left float_repr summ slim =
     concat (map (\<lambda>g. case matches float_repr slim g of
                         [] \<Rightarrow> [(g, CFloat NaN)]
                       | m # ms \<Rightarrow> map (\<lambda>(n, q, a). (g, a)) (m # ms)) summ)"

subsection \<open>Export rows, line IDs and the workbook\<close>

record export_row =
  Assignment :: cell
  Employee_Name :: cell
  Pay_Rate :: pyfloat
  Work_Date :: string
  Weekending_Date :: string
  Hours_Sum :: pyfloat
  Unique_Line_ID :: string

text \<open>
  A number printed with a minimum width and zeros on the left, as the format
  specification \<^verbatim>\<open>04d\<close> and the \<^verbatim>\<open>strftime\<close> fields do. \<^verbatim>\<open>%Y\<close> is taken to pad the
  year to four digits, which is exact for the years from 1000 on.
\<close>

definition zero_pad :: "nat \<Rightarrow> string \<Rightarrow> string" where
  "zero_pad w s = replicate (w - length s) (CHR ''0'') @ s"

definition strftime_Ymd :: "date \<Rightarrow> string" where
  "strftime_Ymd d =
     zero_pad 4 (dec (year d)) @ zero_pad 2 (dec (month d)) @ zero_pad 2 (dec (day d))"

definition strftime_mdY :: "date \<Rightarrow> string" where
  "strftime_mdY d =
     zero_pad 2 (dec (month d)) @ ''/'' @ zero_pad 2 (dec (day d)) @ ''/''
       @ zero_pad 4 (dec (year d))"

text \<open>\<^verbatim>\<open>f"{we_id_prefix}{i:04d}"\<close>\<close>

definition line_id :: "string \<Rightarrow> nat \<Rightarrow> string" where
  "line_id we_id_prefix i = we_id_prefix @ zero_pad 4 (dec i)"

text \<open>
  \<^verbatim>\<open>joined.sort_values(["Employee Name", "Pay Rate"]).reset_index(drop=True)\<close>: a stable
  sort on the two columns, missing pay rates last.
\<close>

definition sort_values :: "(pay_record \<times> cell) list \<Rightarrow> (pay_record \<times> cell) list" where
  "sort_values joined = sort_key (\<lambda>(g, a). record_sort_key g) joined"

text \<open>
  \<^verbatim>\<open>
  joined["Unique Line ID"] = [f"{we_id_prefix}{i:04d}" for i in range(1, len(joined) + 1)]
  final = joined[final_cols]
  \<close>
\<close>

definition final_rows :: "date \<Rightarrow> (pay_record \<times> cell) list \<Rightarrow> export_row list" where
  "final_rows custom_we joined =
     (let sorted = sort_values joined in
      map2 (\<lambda>(g, a) i.
              \<lparr>Assignment = a, Employee_Name = EmployeeName g, Pay_Rate = PayRate g,
               Work_Date = strftime_mdY custom_we, Weekending_Date = strftime_mdY custom_we,
               Hours_Sum = Hours g,
               Unique_Line_ID = line_id (strftime_Ymd custom_we) i\<rparr>)
        sorted [1 ..< length sorted + 1])"

text \<open>\<^verbatim>\<open>isna\<close>: \<^verbatim>\<open>None\<close> and NaN are missing.\<close>

definition isna :: "cell \<Rightarrow> bool" where
  "isna x = (x = CNone \<or> x = CFloat NaN)"

text \<open>
  \<^verbatim>\<open>unmatched = joined[joined["Assignment #"].isna()][["Employee Name", "Pay Rate", "Hours"]]\<close>
\<close>

definition unmatched :: "export_row list \<Rightarrow> pay_record list" where
  "unmatched final =
     map (\<lambda>e. \<lparr>EmployeeName = Employee_Name e, PayRate = Pay_Rate e, Hours = Hours_Sum e\<rparr>)
       (filter (\<lambda>e. isna (Assignment e)) final)"

text \<open>
  The workbook is the list of its sheets, by name:
  \<^verbatim>\<open>
  final.to_excel(xw, index=False, sheet_name="Export")
  if not unmatched.empty:
      unmatched.to_excel(xw, index=False, sheet_name="Unmatched")
  \<close>
\<close>

datatype sheet = ExportSheet "export_row list" | UnmatchedSheet "pay_record list"

definition workbook :: "export_row list \<Rightarrow> (string \<times> sheet) list" where
  "workbook final =
     (''Export'', ExportSheet final)
       # (if unmatched final \<noteq> [] then [(''Unmatched'', UnmatchedSheet (unmatched final))]
          else [])"

subsection \<open>One run of the script\<close>

text \<open>
  The transformations of the script from the two tables, the column mapping and the
  week-ending date to the workbook. The roster columns have to exist. A roster
  assignment column that is one of the two key columns makes the label of that key
  ambiguous in the merge, and one that is named like a summary column is renamed by the
  merge, so that the selection of the final columns fails.
\<close>

definition run_export ::
  "(rat \<Rightarrow> string) \<Rightarrow> table \<Rightarrow> table \<Rightarrow> string \<Rightarrow> string \<Rightarrow> string \<Rightarrow> string \<Rightarrow> string
     \<Rightarrow> string option \<Rightarrow> string option \<Rightarrow> string option
     \<Rightarrow> string \<Rightarrow> string \<Rightarrow> string \<Rightarrow> date \<Rightarrow> error + (string \<times> sheet) list" where
  "run_export float_repr payroll_df assign_df client_col reg_col ot_col dt_col payrate_col
       first_col last_col full_col assign_name_col assign_rate_col assign_no_col custom_we =
     (case payroll_ucla float_repr payroll_df client_col of
        Inl e \<Rightarrow> Inl e
      | Inr ucla \<Rightarrow>
          (case prepare_payroll float_repr ucla reg_col ot_col dt_col payrate_col
                  first_col last_col full_col of
             Inl e \<Rightarrow> Inl e
           | Inr t \<Rightarrow>
               if assign_name_col \<notin> set (columns assign_df) then Inl (KeyError assign_name_col)
               else if assign_rate_col \<notin> set (columns assign_df) \<union> {''_name''}
                 then Inl (KeyError assign_rate_col)
               else if assign_no_col \<notin> set (columns assign_df) \<union> {''_name'', ''_rate''}
                 then Inl (KeyError assign_no_col)
               else if assign_no_col \<in> {''_name'', ''_rate''}
                 then Inl (ValueError (''The column label '' @ assign_no_col @ '' is not unique.''))
               else if assign_no_col \<in> {''Employee Name'', ''Pay Rate'', ''Hours''}
                 then Inl (KeyError ''Assignment #'')
               else
                 Inr (workbook (final_rows custom_we
                        (merge_left float_repr (summary t)
                           (assign_df_slim float_repr assign_df assign_name_col
                              assign_rate_col assign_no_col))))))"

subsection \<open>Example tables\<close>

text \<open>
  A payroll and a roster with the values of the specification's examples: two UCLA rows
  of Jane Doe at rate 20 with 3.0 and 4.5 hours, a row of another client, a row of John
  Roe at rate 25, and a roster that knows Jane Doe at 20 and John Roe at 26.
\<close>

definition ex_payroll :: table where
  "ex_payroll =
     \<lparr>columns = [''Client Name'', ''First Name'', ''Last Name'', ''Pay Rate'', ''Reg H (e)'',
                 ''OT H (e)'', ''DT H (e)''],
      rows =
        [(\<lambda>c. CNone)(''Client Name'' := CStr ''UCLA Extension'', ''First Name'' := CStr '' Jane'',
            ''Last Name'' := CStr ''Doe '', ''Pay Rate'' := CStr ''20'', ''Reg H (e)'' := CInt 3,
            ''OT H (e)'' := CStr ''0'', ''DT H (e)'' := CFloat NaN),
         (\<lambda>c. CNone)(''Client Name'' := CStr ''UCSB'', ''First Name'' := CStr ''Sam'',
            ''Last Name'' := CStr ''Poe'', ''Pay Rate'' := CStr ''30'', ''Reg H (e)'' := CInt 8,
            ''OT H (e)'' := CStr ''0'', ''DT H (e)'' := CStr ''0''),
         (\<lambda>c. CNone)(''Client Name'' := CStr ''ucla health'', ''First Name'' := CStr ''John'',
            ''Last Name'' := CStr ''Roe'', ''Pay Rate'' := CStr ''25'',
            ''Reg H (e)'' := CStr ''1,234.5'', ''OT H (e)'' := CStr ''abc'',
            ''DT H (e)'' := CStr ''0''),
         (\<lambda>c. CNone)(''Client Name'' := CStr ''UCLA Extension'', ''First Name'' := CStr ''Jane'',
            ''Last Name'' := CStr ''Doe'', ''Pay Rate'' := CStr ''20.0'', ''Reg H (e)'' := CStr ''4'',
            ''OT H (e)'' := CStr ''0.5'', ''DT H (e)'' := CStr ''0'')]\<rparr>"

definition ex_roster :: table where
  "ex_roster =
     \<lparr>columns = [''Employee Name'', ''Pay Rate'', ''Assign No''],
      rows =
        [(\<lambda>c. CNone)(''Employee Name'' := CStr ''Jane  Doe'', ''Pay Rate'' := CStr ''20.00'',
            ''Assign No'' := CStr ''A100''),
         (\<lambda>c. CNone)(''Employee Name'' := CStr ''John Roe'', ''Pay Rate'' := CStr ''26'',
            ''Assign No'' := CStr ''A200'')]\<rparr>"


text \<open>A float representation for the two pay rates of the example.\<close>

definition ex_repr :: "rat \<Rightarrow> string" where
  "ex_repr q = (if q = 20 then ''20.0'' else ''25.0'')"


section \<open>Properties\<close>

subsection \<open>Calendar arithmetic\<close>

lemma month_cases:
  assumes "1 \<le> m" "m \<le> (12::nat)"
  shows "m = 1 \<or> m = 2 \<or> m = 3 \<or> m = 4 \<or> m = 5 \<or> m = 6
       \<or> m = 7 \<or> m = 8 \<or> m = 9 \<or> m = 10 \<or> m = 11 \<or> m = 12"
  using assms by arith

lemma days_before_month_step:
  assumes "2 \<le> m" "m \<le> 12"
  shows "days_before_month y m = days_before_month y (m - 1) + days_in_month y (m - 1)"
  using month_cases[of m] assms
  by (auto simp add: days_before_month_def days_in_month_def)

lemma days_before_year_step:
  assumes "2 \<le> y"
  shows "days_before_year y
           = days_before_year (y - 1) + (if is_leap (y - 1) then 366 else 365)"
proof -
  obtain p where y: "y = Suc (Suc p)"
    using assms by (metis Suc_le_D numeral_2_eq_2 Suc_le_mono)
  have a: "Suc p div 4 = p div 4 + (if Suc p mod 4 = 0 then 1 else 0)"
    by (simp add: div_Suc)
  have b: "Suc p div 100 = p div 100 + (if Suc p mod 100 = 0 then 1 else 0)"
    by (simp add: div_Suc)
  have c: "Suc p div 400 = p div 400 + (if Suc p mod 400 = 0 then 1 else 0)"
    by (simp add: div_Suc)
  have d: "p div 100 \<le> p div 4"
    by (rule div_le_mono2) simp_all
  have e: "Suc p mod 4 = 0" if "Suc p mod 100 = 0"
  proof -
    from that have "100 dvd Suc p" by (simp add: dvd_eq_mod_eq_0)
    moreover have "(4::nat) dvd 100" by simp
    ultimately have "4 dvd Suc p" by (rule dvd_trans[rotated])
    then show ?thesis by (simp add: dvd_eq_mod_eq_0)
  qed
  have f: "Suc p mod 100 = 0" if "Suc p mod 400 = 0"
  proof -
    from that have "400 dvd Suc p" by (simp add: dvd_eq_mod_eq_0)
    moreover have "(100::nat) dvd 400" by simp
    ultimately have "100 dvd Suc p" by (rule dvd_trans[rotated])
    then show ?thesis by (simp add: dvd_eq_mod_eq_0)
  qed
  have lin: "(A + 365) + (q4 + k1) - (q100 + k2) + (q400 + k3)
               = A + q4 - q100 + q400 + (365 + k1 - k2 + k3)"
    if "q100 \<le> q4" "k2 \<le> k1" for A q4 q100 q400 k1 k2 k3 :: nat
    using that by simp
  have "days_before_year y
          = (p * 365 + 365) + (p div 4 + (if Suc p mod 4 = 0 then 1 else 0))
            - (p div 100 + (if Suc p mod 100 = 0 then 1 else 0))
            + (p div 400 + (if Suc p mod 400 = 0 then 1 else 0))"
    by (simp only: y days_before_year_def Let_def diff_Suc_1 a b c mult_Suc)
       (simp add: add.commute)
  also have "\<dots> = p * 365 + p div 4 - p div 100 + p div 400 +
      (365 + (if Suc p mod 4 = 0 then 1 else 0) - (if Suc p mod 100 = 0 then 1 else 0)
         + (if Suc p mod 400 = 0 then 1 else 0))"
    using d e by (intro lin) auto
  also have "\<dots> = days_before_year (y - 1) + (if is_leap (y - 1) then 366 else 365)"
    using e f by (auto simp add: y days_before_year_def is_leap_def Let_def)
  finally show ?thesis .
qed

lemma minus_one_day_ord:
  assumes "valid_date d" "minus_one_day d = Inr d'"
  shows "valid_date d' \<and> Suc (toordinal d') = toordinal d"
proof -
  consider (dd) "1 < day d" | (mm) "day d = 1" "1 < month d"
    | (yy) "day d = 1" "month d = 1" "1 < year d"
    | (bot) "day d = 1" "month d = 1" "year d = 1"
    using assms(1) unfolding valid_date_def by atomize_elim arith
  then show ?thesis
  proof cases
    case dd
    then show ?thesis using assms
      by (auto simp add: minus_one_day_def valid_date_def toordinal_def)
  next
    case mm
    have "d' = d\<lparr>month := month d - 1, day := days_in_month (year d) (month d - 1)\<rparr>"
      using mm assms(2) by (simp add: minus_one_day_def)
    moreover have "days_before_month (year d) (month d)
        = days_before_month (year d) (month d - 1) + days_in_month (year d) (month d - 1)"
      using mm assms(1) by (intro days_before_month_step) (auto simp add: valid_date_def)
    moreover have "1 \<le> days_in_month (year d) (month d - 1)"
      by (simp add: days_in_month_def)
    ultimately show ?thesis using mm assms(1)
      by (auto simp add: valid_date_def toordinal_def)
  next
    case yy
    have d': "d' = d\<lparr>year := year d - 1, month := 12, day := 31\<rparr>"
      using yy assms(2) by (simp add: minus_one_day_def)
    have "days_before_year (year d)
        = days_before_year (year d - 1) + (if is_leap (year d - 1) then 366 else 365)"
      using yy by (intro days_before_year_step) simp
    then show ?thesis using yy assms(1) d'
      by (auto simp add: valid_date_def toordinal_def days_before_month_def days_in_month_def)
  next
    case bot
    then show ?thesis using assms(2) by (simp add: minus_one_day_def)
  qed
qed

lemma minus_one_day_overflow:
  assumes "valid_date d" "minus_one_day d = Inl e"
  shows "e = OverflowError \<and> toordinal d = 1"
proof -
  have "day d = 1 \<and> month d = 1 \<and> year d = 1 \<and> e = OverflowError"
    using assms by (auto simp add: minus_one_day_def valid_date_def split: if_splits)
  then show ?thesis
    by (simp add: toordinal_def days_before_year_def days_before_month_def)
qed

lemma toordinal_pos: "valid_date d \<Longrightarrow> 1 \<le> toordinal d"
  by (simp add: valid_date_def toordinal_def)

lemma sunday_iff: "weekday d = 6 \<longleftrightarrow> toordinal d mod 7 = 0"
  unfolding weekday_def by presburger

lemma step_back_returns:
  "valid_date d \<Longrightarrow> toordinal d mod 7 < toordinal d \<Longrightarrow>
   \<exists>r. step_back_to_sunday d = Inr r \<and> valid_date r
       \<and> toordinal r = toordinal d - toordinal d mod 7"
proof (induction d rule: step_back_to_sunday.induct)
  case (1 d)
  show ?case
  proof (cases "weekday d = 6")
    case True
    then show ?thesis using "1.prems"
      by (simp add: sunday_iff step_back_to_sunday.simps[of d])
  next
    case False
    then have k: "0 < toordinal d mod 7" by (simp add: sunday_iff)
    then have big: "2 \<le> toordinal d" using "1.prems"(2) by linarith
    obtain d' where d': "minus_one_day d = Inr d'"
      using minus_one_day_overflow[OF "1.prems"(1)] big
      by (cases "minus_one_day d") auto
    have v: "valid_date d'" and o: "Suc (toordinal d') = toordinal d"
      using minus_one_day_ord[OF "1.prems"(1) d'] by simp_all
    have m: "toordinal d' mod 7 = toordinal d mod 7 - 1"
      using k o by (metis mod_Suc diff_Suc_1 less_numeral_extra(3))
    have "toordinal d' mod 7 < toordinal d'"
      using m k o "1.prems"(2) by linarith
    from "1.IH"[OF False d' v this] obtain r where
      r: "step_back_to_sunday d' = Inr r" "valid_date r"
         "toordinal r = toordinal d' - toordinal d' mod 7"
      by blast
    have "step_back_to_sunday d = Inr r"
      using False d' r(1) by (simp add: step_back_to_sunday.simps[of d])
    moreover have "toordinal r = toordinal d - toordinal d mod 7"
      using r(3) m k o by linarith
    ultimately show ?thesis using r(2) by blast
  qed
qed

lemma step_back_overflows:
  "valid_date d \<Longrightarrow> toordinal d < 7 \<Longrightarrow> step_back_to_sunday d = Inl OverflowError"
proof (induction d rule: step_back_to_sunday.induct)
  case (1 d)
  have pos: "1 \<le> toordinal d" using "1.prems"(1) by (rule toordinal_pos)
  then have ns: "weekday d \<noteq> 6"
    using "1.prems"(2) by (simp add: sunday_iff)
  show ?case
  proof (cases "minus_one_day d")
    case (Inl e)
    then show ?thesis
      using ns minus_one_day_overflow[OF "1.prems"(1) Inl]
      by (simp add: step_back_to_sunday.simps[of d])
  next
    case (Inr d')
    have "valid_date d'" "toordinal d' < 7"
      using minus_one_day_ord[OF "1.prems"(1) Inr] "1.prems"(2) by simp_all
    from "1.IH"[OF ns Inr this] show ?thesis
      using ns Inr by (simp add: step_back_to_sunday.simps[of d])
  qed
qed

subsection \<open>Whitespace canonicalisation\<close>

lemma dropWhile_hd_id: "xs \<noteq> [] \<Longrightarrow> \<not> P (hd xs) \<Longrightarrow> dropWhile P xs = xs"
  by (cases xs) auto

lemma dropWhile_nonspace_head:
  "dropWhile is_space cs = [] \<or> \<not> is_space (hd (dropWhile is_space cs))"
  using hd_dropWhile[of is_space cs] by blast

lemma collapse_ws_nonspace_head:
  assumes "xs = [] \<or> \<not> is_space (hd xs)"
  shows "collapse_ws xs = [] \<or> \<not> is_space (hd (collapse_ws xs))"
  using assms by (cases xs) auto

lemma ws_collapsed_Cons:
  "ws_collapsed (c # xs) \<longleftrightarrow>
     (is_space c \<longrightarrow> c = CHR '' '' \<and> (xs = [] \<or> \<not> is_space (hd xs))) \<and> ws_collapsed xs"
  by (cases xs) auto

lemma ws_collapsed_collapse_ws: "ws_collapsed (collapse_ws s)"
proof (induction s rule: collapse_ws.induct)
  case 1
  show ?case by simp
next
  case (2 c cs)
  show ?case
  proof (cases "is_space c")
    case True
    have "collapse_ws (dropWhile is_space cs) = []
          \<or> \<not> is_space (hd (collapse_ws (dropWhile is_space cs)))"
      by (rule collapse_ws_nonspace_head) (rule dropWhile_nonspace_head)
    then show ?thesis using True 2
      by (simp add: ws_collapsed_Cons)
  next
    case False
    then show ?thesis using 2 by (simp add: ws_collapsed_Cons)
  qed
qed

lemma collapse_ws_fixed: "ws_collapsed t \<Longrightarrow> collapse_ws t = t"
proof (induction t rule: ws_collapsed.induct)
  case 1
  show ?case by simp
next
  case (2 c)
  then show ?case by simp
next
  case (3 c d cs)
  then show ?case by auto
qed

lemma ws_collapsed_append_right: "ws_collapsed (xs @ ys) \<Longrightarrow> ws_collapsed ys"
  by (induction xs) (auto simp add: ws_collapsed_Cons)

lemma ws_collapsed_append_left: "ws_collapsed (xs @ ys) \<Longrightarrow> ws_collapsed xs"
  by (induction xs) (auto simp add: ws_collapsed_Cons)

lemma strip_rstrip: "strip s = rstrip (dropWhile is_space s)"
  by (simp add: strip_def rstrip_def)

lemma rstrip_prefix: "rstrip s @ rev (takeWhile is_space (rev s)) = s"
proof -
  have "rev (takeWhile is_space (rev s) @ dropWhile is_space (rev s)) = s"
    by simp
  then show ?thesis unfolding rstrip_def by (simp only: rev_append)
qed

lemma strip_infix:
  "takeWhile is_space s @ strip s @ rev (takeWhile is_space (rev (dropWhile is_space s))) = s"
  using rstrip_prefix[of "dropWhile is_space s"] by (simp add: strip_rstrip)

lemma ws_collapsed_strip: "ws_collapsed t \<Longrightarrow> ws_collapsed (strip t)"
  using strip_infix[of t] ws_collapsed_append_left ws_collapsed_append_right
  by metis

lemma rstrip_idem: "rstrip (rstrip s) = rstrip s"
  by (simp add: rstrip_def dropWhile_idem)

lemma lstrip_rstrip:
  assumes "s = [] \<or> \<not> is_space (hd s)"
  shows "dropWhile is_space (rstrip s) = rstrip s"
proof (cases "rstrip s")
  case Nil
  then show ?thesis by simp
next
  case (Cons x xs)
  then have "s = (x # xs) @ rev (takeWhile is_space (rev s))"
    using rstrip_prefix[of s] by simp
  then have "hd s = x" "s \<noteq> []"
    by (metis append_Cons list.sel(1), metis append_Cons list.distinct(1))
  then show ?thesis using assms Cons by simp
qed

lemma lstrip_strip: "dropWhile is_space (strip s) = strip s"
  unfolding strip_rstrip by (rule lstrip_rstrip) (rule dropWhile_nonspace_head)

lemma strip_idem: "strip (strip s) = strip s"
proof -
  have "strip (strip s) = rstrip (strip s)"
    by (simp add: strip_rstrip[of "strip s"] lstrip_strip)
  then show ?thesis by (simp add: strip_rstrip rstrip_idem)
qed

lemma strip_ends:
  "strip s = [] \<or> (\<not> is_space (hd (strip s)) \<and> \<not> is_space (last (strip s)))"
proof (cases "strip s = []")
  case True
  then show ?thesis by simp
next
  case False
  have h: "\<not> is_space (hd (strip s))"
    using False dropWhile_nonspace_head[of "strip s"] by (simp add: lstrip_strip)
  let ?u = "dropWhile is_space (rev (dropWhile is_space s))"
  have u: "?u \<noteq> []" using False by (simp add: strip_def)
  then have "\<not> is_space (hd ?u)"
    using dropWhile_nonspace_head[of "rev (dropWhile is_space s)"] by blast
  moreover have "last (strip s) = hd ?u"
    using u by (simp add: strip_def last_rev)
  ultimately show ?thesis using h by simp
qed

lemma canonicalize_normalized: "ws_normalized (canonicalize s)"
  unfolding ws_normalized_def canonicalize_def
  using ws_collapsed_strip[OF ws_collapsed_collapse_ws] strip_ends by blast

lemma canonicalize_fixed:
  assumes "ws_normalized t"
  shows "canonicalize t = t"
proof -
  have c: "collapse_ws t = t"
    using assms by (simp add: ws_normalized_def collapse_ws_fixed)
  have "strip t = t"
  proof (cases t)
    case Nil
    then show ?thesis by (simp add: strip_def)
  next
    case (Cons x xs)
    then have ends: "\<not> is_space (hd t)" "\<not> is_space (last t)"
      using assms by (simp_all add: ws_normalized_def)
    have ne: "t \<noteq> []" "rev t \<noteq> []" using Cons by simp_all
    have "hd (rev t) = last t" using ne(1) by (simp add: hd_rev)
    then have r: "\<not> is_space (hd (rev t))" using ends(2) by simp
    have "dropWhile is_space t = t"
      using ne(1) ends(1) by (rule dropWhile_hd_id)
    moreover have "dropWhile is_space (rev t) = rev t"
      using ne(2) r by (rule dropWhile_hd_id)
    ultimately show ?thesis by (simp add: strip_def)
  qed
  then show ?thesis by (simp add: canonicalize_def c)
qed

lemma collapse_ws_word:
  "\<forall>c \<in> set w. \<not> is_space c \<Longrightarrow> collapse_ws (w @ r) = w @ collapse_ws r"
  by (induction w) auto

lemma strip_leading: "is_space c \<Longrightarrow> strip (c # t) = strip t"
  by (simp add: strip_def)

lemma canon_lstrip: "canonicalize s = canonicalize (dropWhile is_space s)"
proof (cases s)
  case Nil
  then show ?thesis by simp
next
  case (Cons c cs)
  show ?thesis
  proof (cases "is_space c")
    case True
    have "is_space (CHR '' '')" by (simp add: is_space_def)
    then have "canonicalize s = strip (collapse_ws (dropWhile is_space cs))"
      using True Cons by (simp add: canonicalize_def strip_leading)
    then show ?thesis using True Cons by (simp add: canonicalize_def)
  next
    case False
    then show ?thesis using Cons by simp
  qed
qed

lemma rstrip_word:
  assumes "w \<noteq> []" "\<forall>c \<in> set w. \<not> is_space c"
  shows "rstrip (w @ t) = w @ rstrip t"
proof (cases "\<forall>x \<in> set (rev t). is_space x")
  case True
  have "\<not> is_space (hd (rev w))" using assms by (simp add: hd_rev)
  then have "dropWhile is_space (rev w) = rev w"
    using assms(1) by (simp add: dropWhile_hd_id)
  then show ?thesis using True by (simp add: rstrip_def dropWhile_append)
next
  case False
  then show ?thesis by (auto simp add: rstrip_def dropWhile_append)
qed

lemma strip_word:
  assumes "w \<noteq> []" "\<forall>c \<in> set w. \<not> is_space c"
  shows "strip (w @ t) = w @ rstrip t"
proof -
  have "dropWhile is_space (w @ t) = w @ t"
    using assms by (cases w) auto
  then show ?thesis by (simp add: strip_rstrip rstrip_word[OF assms])
qed

lemma rstrip_space_Cons:
  "rstrip (CHR '' '' # y) = (if rstrip y = [] then [] else CHR '' '' # rstrip y)"
proof -
  have sp: "is_space (CHR '' '')" by (simp add: is_space_def)
  show ?thesis
  proof (cases "\<forall>x \<in> set (rev y). is_space x")
    case True
    then have "dropWhile is_space (rev y) = []" by simp
    then show ?thesis using True sp by (simp add: rstrip_def dropWhile_append)
  next
    case False
    then have "dropWhile is_space (rev y) \<noteq> []" by simp
    then show ?thesis using False by (simp add: rstrip_def dropWhile_append)
  qed
qed

lemma canon_after_word:
  assumes "r = [] \<or> is_space (hd r)"
  shows "rstrip (collapse_ws r) = (if canonicalize r = [] then [] else CHR '' '' # canonicalize r)"
proof (cases r)
  case Nil
  then show ?thesis by (simp add: rstrip_def canonicalize_def strip_def)
next
  case (Cons c cs)
  then have c: "is_space c" using assms by simp
  let ?y = "collapse_ws (dropWhile is_space cs)"
  have sp: "is_space (CHR '' '')" by (simp add: is_space_def)
  have cw: "collapse_ws r = CHR '' '' # ?y" using Cons c by simp
  have "?y = [] \<or> \<not> is_space (hd ?y)"
    by (rule collapse_ws_nonspace_head) (rule dropWhile_nonspace_head)
  then have "dropWhile is_space ?y = ?y"
    by (cases ?y) auto
  then have "strip ?y = rstrip ?y" by (simp add: strip_rstrip)
  then have "canonicalize r = rstrip ?y"
    by (simp add: canonicalize_def cw strip_leading[OF sp])
  then show ?thesis by (simp add: cw rstrip_space_Cons)
qed


lemma join_space_empty: "\<forall>w \<in> set ws. w \<noteq> [] \<Longrightarrow> join_space ws = [] \<longleftrightarrow> ws = []"
  by (induction ws rule: join_space.induct) auto

lemma wsplit_Nil:
  assumes "dropWhile is_space s = []"
  shows "wsplit s = []"
  by (subst wsplit.simps) (simp only: assms list.case)

lemma wsplit_Cons:
  assumes "dropWhile is_space s = c # cs"
  shows "wsplit s = (c # takeWhile (\<lambda>x. \<not> is_space x) cs)
                      # wsplit (dropWhile (\<lambda>x. \<not> is_space x) cs)"
  by (subst wsplit.simps) (simp only: assms list.case)

lemma wsplit_nonempty_words: "\<forall>w \<in> set (wsplit s). w \<noteq> []"
proof (induction s rule: wsplit.induct)
  case (1 s)
  show ?case
  proof (cases "dropWhile is_space s")
    case Nil
    then show ?thesis by (simp add: wsplit_Nil)
  next
    case (Cons c cs)
    then show ?thesis using "1.IH"[OF Cons] by (simp add: wsplit_Cons[OF Cons])
  qed
qed

lemma canonicalize_words: "canonicalize s = join_space (wsplit s)"
proof (induction s rule: wsplit.induct)
  case (1 s)
  show ?case
  proof (cases "dropWhile is_space s")
    case Nil
    have "canonicalize s = canonicalize []" using canon_lstrip[of s] unfolding Nil .
    then have "canonicalize s = []" by (simp add: canonicalize_def strip_def)
    then show ?thesis by (simp add: wsplit_Nil[OF Nil])
  next
    case (Cons c cs)
    let ?w = "c # takeWhile (\<lambda>x. \<not> is_space x) cs"
    let ?r = "dropWhile (\<lambda>x. \<not> is_space x) cs"
    have c: "\<not> is_space c" using Cons hd_dropWhile[of is_space s] by (metis list.sel(1) list.distinct(1))
    have w: "?w \<noteq> []" "\<forall>x \<in> set ?w. \<not> is_space x"
      using c by (auto dest: set_takeWhileD)
    have r: "?r = [] \<or> is_space (hd ?r)"
      using hd_dropWhile[of "\<lambda>x. \<not> is_space x" cs] by blast
    have split: "c # cs = ?w @ ?r" by simp
    have "canonicalize s = strip (collapse_ws (?w @ ?r))"
      using canon_lstrip[of s] Cons by (simp only: canonicalize_def split)
    also have "\<dots> = ?w @ rstrip (collapse_ws ?r)"
      by (simp only: collapse_ws_word[OF w(2)] strip_word[OF w])
    also have "\<dots> = ?w @ (if canonicalize ?r = [] then [] else CHR '' '' # canonicalize ?r)"
      by (simp only: canon_after_word[OF r])
    finally have step: "canonicalize s = ?w @ (if canonicalize ?r = [] then [] else CHR '' '' # canonicalize ?r)" .
    have ih: "canonicalize ?r = join_space (wsplit ?r)"
      using "1.IH"[OF Cons] .
    have ws: "wsplit s = ?w # wsplit ?r"
      by (rule wsplit_Cons[OF Cons])
    show ?thesis
    proof (cases "wsplit ?r")
      case Nil
      then show ?thesis using step ih ws by simp
    next
      case (Cons v vs)
      then have "join_space (wsplit ?r) \<noteq> []"
        using join_space_empty[OF wsplit_nonempty_words[of ?r]] by simp
      then show ?thesis using step ih ws Cons by simp
    qed
  qed
qed

subsection \<open>Column inference\<close>


lemma find_SomeD: "find P xs = Some x \<Longrightarrow> x \<in> set xs \<and> P x"
  by (induction xs) (auto split: if_splits)

lemma str_contains_refl: "str_contains s s"
  by (cases s) auto

lemma str_contains_iff: "str_contains sub s \<longleftrightarrow> (\<exists>p q. s = p @ sub @ q)"
proof (induction s)
  case Nil
  then show ?case by auto
next
  case (Cons c cs)
  show ?case
  proof
    assume "str_contains sub (c # cs)"
    then consider "take (length sub) (c # cs) = sub" | "str_contains sub cs" by auto
    then show "\<exists>p q. c # cs = p @ sub @ q"
    proof cases
      case 1
      then have "c # cs = [] @ sub @ drop (length sub) (c # cs)"
        by (metis append_Nil append_take_drop_id)
      then show ?thesis by blast
    next
      case 2
      then obtain p q where "cs = p @ sub @ q" using Cons.IH by blast
      then have "c # cs = (c # p) @ sub @ q" by simp
      then show ?thesis by blast
    qed
  next
    assume "\<exists>p q. c # cs = p @ sub @ q"
    then obtain p q where pq: "c # cs = p @ sub @ q" by blast
    show "str_contains sub (c # cs)"
    proof (cases p)
      case Nil
      then have "take (length sub) (c # cs) = sub" using pq by simp
      then show ?thesis by simp
    next
      case (Cons a p')
      then have "cs = p' @ sub @ q" using pq by simp
      then have "str_contains sub cs" using Cons.IH by blast
      then show ?thesis by simp
    qed
  qed
qed

lemma cols_lower_fold_set:
  "set (foldl (\<lambda>m c. AList.update (lower c) c m) m0 cols)
     \<subseteq> set m0 \<union> (\<lambda>c. (lower c, c)) ` set cols"
proof (induction cols arbitrary: m0)
  case Nil
  show ?case by simp
next
  case (Cons c cols)
  have "set (AList.update (lower c) c m0) \<subseteq> insert (lower c, c) (set m0)"
    by (induction m0) auto
  with Cons[of "AList.update (lower c) c m0"] show ?case by auto
qed

lemma cols_lower_entries:
  "(k, v) \<in> set (cols_lower cols) \<Longrightarrow> k = lower v \<and> v \<in> set cols"
  using cols_lower_fold_set[of "[]" cols] by (auto simp add: cols_lower_def)







lemma infer_column_loop_mem:
  "infer_column_loop m cands = Some v \<Longrightarrow>
     \<exists>cand \<in> set cands. \<exists>k. (k, v) \<in> set m \<and> str_contains (lower cand) k"
proof (induction cands)
  case Nil
  then show ?case by simp
next
  case (Cons cand cands)
  show ?case
  proof (cases "map_of m (lower cand)")
    case (Some w)
    then have "w = v" using Cons.prems by simp
    then have "(lower cand, v) \<in> set m" using Some by (simp add: map_of_SomeD)
    then show ?thesis using str_contains_refl by fastforce
  next
    case None
    show ?thesis
    proof (cases "find (\<lambda>(k, v). str_contains (lower cand) k) m")
      case nf: None
      then show ?thesis using None Cons by auto
    next
      case (Some kv)
      then have "kv \<in> set m" "str_contains (lower cand) (fst kv)"
        by (auto dest: find_SomeD)
      moreover have "snd kv = v"
        using None Some Cons.prems by (simp split: prod.splits)
      ultimately have "(fst kv, v) \<in> set m \<and> str_contains (lower cand) (fst kv)"
        by (cases kv) auto
      then show ?thesis by (intro bexI[of _ cand] exI[of _ "fst kv"]) simp_all
    qed
  qed
qed

lemma infer_column_mem:
  assumes "infer_column cols cands = Some v"
  shows "v \<in> set cols \<and> (\<exists>cand \<in> set cands. str_contains (lower cand) (lower v))"
proof -
  from infer_column_loop_mem[OF assms[unfolded infer_column_def]]
  obtain cand k where c: "cand \<in> set cands" "(k, v) \<in> set (cols_lower cols)"
    "str_contains (lower cand) k" by blast
  from cols_lower_entries[OF c(2)] c show ?thesis by auto
qed





lemma infer_column_nonempty:
  assumes "infer_column cols cands = Some v" "[] \<notin> set cands"
  shows "v \<noteq> []"
proof
  assume "v = []"
  with infer_column_mem[OF assms(1)] obtain cand where
    "cand \<in> set cands" "str_contains (lower cand) []"
    by (auto simp add: lower_def)
  then have "cand = []" by (simp add: lower_def)
  then show False using assms(2) \<open>cand \<in> set cands\<close> by simp
qed

subsection \<open>C1: column inference\<close>




subsection \<open>C10: the canonicalisation is idempotent\<close>

lemma map2_same:
  "map2 h (map f xs) (map g xs) = map (\<lambda>x. h (f x) (g x)) xs"
  by (induction xs) auto

lemma normalize_name_parts_eq:
  "normalize_name_parts fr df first_col last_col full_col =
     (if usable df full_col then
        Inr (map (\<lambda>r. canonicalize (py_str fr (r (the full_col)))) (rows df))
      else if usable df first_col \<and> usable df last_col then
        Inr (map (\<lambda>r. canonicalize (strip (py_str fr (r (the first_col))) @ '' '' @
                                     strip (py_str fr (r (the last_col))))) (rows df))
      else
        (case infer_column (columns df) [''employee name'', ''name''] of
           None \<Rightarrow> Inl name_error
         | Some g \<Rightarrow> Inr (map (\<lambda>r. canonicalize (py_str fr (r g))) (rows df))))"
proof -
  have ne: "g \<noteq> []"
    if "infer_column (columns df) [''employee name'', ''name''] = Some g" for g
    using infer_column_nonempty[OF that] by simp
  show ?thesis
    unfolding normalize_name_parts_def astype_str_def map2_same
    by (auto simp add: o_def split: option.split dest: ne)
qed

lemma normalize_name_parts_canonical:
  assumes "normalize_name_parts fr df first_col last_col full_col = Inr names"
  shows "length names = length (rows df) \<and> (\<forall>n \<in> set names. ws_normalized n)"
  using assms unfolding normalize_name_parts_eq
  by (auto simp add: canonicalize_normalized split: if_splits option.splits)

text \<open>
  C10. Canonicalising a canonical string returns it unchanged. Hence the
  canonicalisation that the script applies to the summary's \<open>Employee Name\<close> values
  at join time changes none of them, and the payroll-side key of a source value is the
  roster-side key of the same value.
\<close>

theorem canonicalize_idempotent:
  "canonicalize (canonicalize s) = canonicalize s
   \<and> (normalize_name_parts fr df first_col last_col full_col = Inr names
        \<longrightarrow> map (\<lambda>n. name_key fr (CStr n)) names = names)
   \<and> name_key fr (CStr (name_key fr x)) = name_key fr x"
proof (intro conjI impI)
  show idem: "canonicalize (canonicalize s) = canonicalize s" for s
    by (rule canonicalize_fixed) (rule canonicalize_normalized)
  then show "name_key fr (CStr (name_key fr x)) = name_key fr x"
    by (simp add: name_key_def)
  assume "normalize_name_parts fr df first_col last_col full_col = Inr names"
  then have "\<forall>n \<in> set names. ws_normalized n"
    using normalize_name_parts_canonical by blast
  then have "\<forall>n \<in> set names. name_key fr (CStr n) = n"
    by (simp add: name_key_def canonicalize_fixed)
  then show "map (\<lambda>n. name_key fr (CStr n)) names = names"
    by (simp add: map_idI)
qed

theorem canonicalize_idempotent_witness:
  "normalize_name_parts (\<lambda>q. [])
      \<lparr>columns = [''First'', ''Last''],
       rows = [(\<lambda>c. CNone)(''First'' := CStr '' Jane '', ''Last'' := CStr ''Doe  '')]\<rparr>
      (Some ''First'') (Some ''Last'') None = Inr [''Jane Doe'']
   \<and> map (\<lambda>n. name_key (\<lambda>q. []) (CStr n)) [''Jane Doe''] = [''Jane Doe'']"
proof -
  let ?df = "\<lparr>columns = [''First'', ''Last''],
       rows = [(\<lambda>c. CNone)(''First'' := CStr '' Jane '', ''Last'' := CStr ''Doe  '')]\<rparr>"
  have n: "normalize_name_parts (\<lambda>q. []) ?df (Some ''First'') (Some ''Last'') None
             = Inr [''Jane Doe'']"
    by (simp add: normalize_name_parts_def usable_def astype_str_def canonicalize_def
        strip_def is_space_def)
  from canonicalize_idempotent[of "[]" "\<lambda>q. []" ?df "Some ''First''" "Some ''Last''" None
      "[''Jane Doe'']" CNone] n
  show ?thesis by blast
qed

subsection \<open>C8: the name normaliser\<close>

text \<open>
  C8. When no full-name column is usable, no pair of first and last column is usable
  and the inference over \<open>employee name\<close> and \<open>name\<close> finds no column, the normaliser
  fails with the \<^verbatim>\<open>ValueError\<close> that asks for a manual mapping. In every other case it
  returns one name per row: the selected source (the full-name cell as a string; or
  the stripped first name, a space and the stripped last name; or the cell of the
  inferred column) rewritten as its words joined by single spaces. Every returned name
  is in canonical form.
\<close>

theorem normalize_name_parts_result:
  "(\<not> usable df full_col \<and> \<not> (usable df first_col \<and> usable df last_col)
      \<and> infer_column (columns df) [''employee name'', ''name''] = None
     \<longrightarrow> normalize_name_parts fr df first_col last_col full_col = Inl name_error)
   \<and> (usable df full_col
     \<longrightarrow> normalize_name_parts fr df first_col last_col full_col
           = Inr (map (\<lambda>r. join_space (wsplit (py_str fr (r (the full_col))))) (rows df)))
   \<and> (\<not> usable df full_col \<and> usable df first_col \<and> usable df last_col
     \<longrightarrow> normalize_name_parts fr df first_col last_col full_col
           = Inr (map (\<lambda>r. join_space (wsplit (strip (py_str fr (r (the first_col))) @ '' '' @
                                                strip (py_str fr (r (the last_col))))))
                    (rows df)))
   \<and> (\<forall>g. \<not> usable df full_col \<and> \<not> (usable df first_col \<and> usable df last_col)
          \<and> infer_column (columns df) [''employee name'', ''name''] = Some g
     \<longrightarrow> normalize_name_parts fr df first_col last_col full_col
           = Inr (map (\<lambda>r. join_space (wsplit (py_str fr (r g)))) (rows df)))
   \<and> (\<forall>names. normalize_name_parts fr df first_col last_col full_col = Inr names
     \<longrightarrow> length names = length (rows df) \<and> (\<forall>n \<in> set names. ws_normalized n))"
  using normalize_name_parts_canonical[of fr df first_col last_col full_col]
  by (simp add: normalize_name_parts_eq canonicalize_words)

theorem normalize_name_parts_result_witness:
  "normalize_name_parts (\<lambda>q. [])
      \<lparr>columns = [''Client'', ''Hours''], rows = [(\<lambda>c. CNone)(''Client'' := CStr ''UCLA'')]\<rparr>
      None None None = Inl name_error
   \<and> normalize_name_parts (\<lambda>q. [])
      \<lparr>columns = [''First'', ''Last''],
       rows = [(\<lambda>c. CNone)(''First'' := CStr '' Jane '', ''Last'' := CStr ''Mary  Doe  '')]\<rparr>
      (Some ''First'') (Some ''Last'') None = Inr [''Jane Mary Doe'']
   \<and> ws_normalized ''Jane Mary Doe''"
proof -
  let ?a = "\<lparr>columns = [''Client'', ''Hours''],
              rows = [(\<lambda>c. CNone)(''Client'' := CStr ''UCLA'')]\<rparr>"
  let ?b = "\<lparr>columns = [''First'', ''Last''],
       rows = [(\<lambda>c. CNone)(''First'' := CStr '' Jane '', ''Last'' := CStr ''Mary  Doe  '')]\<rparr>"
  have ha: "\<not> usable ?a None \<and> \<not> (usable ?a None \<and> usable ?a None)
      \<and> infer_column (columns ?a) [''employee name'', ''name''] = None"
    by (simp add: usable_def infer_column_def cols_lower_def lower_def)
  have ra: "normalize_name_parts (\<lambda>q. []) ?a None None None = Inl name_error"
    using normalize_name_parts_result[of ?a None None None "\<lambda>q. []"] ha by blast
  have hb: "\<not> usable ?b None \<and> usable ?b (Some ''First'') \<and> usable ?b (Some ''Last'')"
    by (simp add: usable_def)
  have "normalize_name_parts (\<lambda>q. []) ?b (Some ''First'') (Some ''Last'') None
          = Inr (map (\<lambda>r. join_space (wsplit (strip (py_str (\<lambda>q. []) (r (the (Some ''First''))))
                    @ '' '' @ strip (py_str (\<lambda>q. []) (r (the (Some ''Last''))))))) (rows ?b))"
    using normalize_name_parts_result[of ?b None "Some ''First''" "Some ''Last''" "\<lambda>q. []"] hb
    by blast
  then have rb: "normalize_name_parts (\<lambda>q. []) ?b (Some ''First'') (Some ''Last'') None
          = Inr [''Jane Mary Doe'']"
    by (simp add: strip_def is_space_def wsplit.simps)
  then have "ws_normalized ''Jane Mary Doe''"
    using normalize_name_parts_result[of ?b None "Some ''First''" "Some ''Last''" "\<lambda>q. []"]
    by simp
  with ra rb show ?thesis by blast
qed

subsection \<open>C7: the default week-ending date\<close>

text \<open>
  C7, as the code has it. For every anchor date on or after 0001-01-07 (the first
  Sunday of the calendar), \<open>most_recent_sunday\<close> returns a date: it is a Sunday, it is
  not after the anchor, it lies \<open>(weekday + 1) mod 7\<close> days, so fewer than 7 days,
  before the anchor, and it is the anchor itself when the anchor is a Sunday. When no
  anchor is given the same holds of \<open>today\<close>.
\<close>

theorem most_recent_sunday_correct:
  assumes "valid_date d" and "7 \<le> toordinal d"
    and "anchor = Some d \<or> (anchor = None \<and> today = d)"
  shows "\<exists>r. most_recent_sunday today anchor = Inr r
           \<and> valid_date r \<and> weekday r = 6
           \<and> toordinal r \<le> toordinal d
           \<and> toordinal d - toordinal r = (weekday d + 1) mod 7
           \<and> toordinal d - toordinal r < 7
           \<and> (weekday d = 6 \<longrightarrow> r = d)"
proof -
  have lt: "toordinal d mod 7 < toordinal d"
    using assms(2) by (meson less_le_trans mod_less_divisor zero_less_numeral)
  from step_back_returns[OF assms(1) lt] obtain r where
    r: "step_back_to_sunday d = Inr r" "valid_date r"
       "toordinal r = toordinal d - toordinal d mod 7"
    by blast
  have call: "most_recent_sunday today anchor = Inr r"
    using assms(3) r(1) by (auto simp add: most_recent_sunday_def)
  have le: "toordinal d mod 7 \<le> toordinal d" using lt by simp
  have sun: "weekday r = 6"
    unfolding sunday_iff r(3) using le by (simp add: mod_eq_0_iff_dvd dvd_minus_mod)
  have diff: "toordinal d - toordinal r = toordinal d mod 7"
    using r(3) le by simp
  have wd: "(weekday d + 1) mod 7 = toordinal d mod 7"
    unfolding weekday_def by presburger
  have same: "r = d" if "weekday d = 6"
    using that r(1) by (simp add: step_back_to_sunday.simps[of d])
  have rle: "toordinal r \<le> toordinal d"
    using r(3) by simp
  show ?thesis
    using call r(2) sun diff wd same rle by auto
qed

theorem most_recent_sunday_correct_witness:
  "valid_date \<lparr>year = 2024, month = 6, day = 12\<rparr>
   \<and> 7 \<le> toordinal \<lparr>year = 2024, month = 6, day = 12\<rparr>
   \<and> (\<exists>r. most_recent_sunday \<lparr>year = 2024, month = 6, day = 12\<rparr> None = Inr r
          \<and> valid_date r \<and> weekday r = 6
          \<and> toordinal r \<le> toordinal \<lparr>year = 2024, month = 6, day = 12\<rparr>
          \<and> toordinal \<lparr>year = 2024, month = 6, day = 12\<rparr> - toordinal r < 7)"
proof -
  let ?w = "\<lparr>year = 2024, month = 6, day = 12\<rparr>"
  have v: "valid_date ?w"
    by (simp add: valid_date_def days_in_month_def)
  have o: "7 \<le> toordinal ?w"
    by (simp add: toordinal_def days_before_year_def days_before_month_def is_leap_def)
  have a: "(None :: date option) = Some ?w \<or> ((None :: date option) = None \<and> ?w = ?w)"
    by simp
  from most_recent_sunday_correct[OF v o a] v o show ?thesis
    by blast
qed

lemmas calendar_eval =
  toordinal_def weekday_def days_before_year_def days_before_month_def days_in_month_def
  is_leap_def minus_one_day_def

lemma most_recent_sunday_example:
  "most_recent_sunday \<lparr>year = 2024, month = 6, day = 12\<rparr> None
     = Inr \<lparr>year = 2024, month = 6, day = 9\<rparr>
   \<and> most_recent_sunday \<lparr>year = 2024, month = 6, day = 12\<rparr>
        (Some \<lparr>year = 2024, month = 3, day = 1\<rparr>)
     = Inr \<lparr>year = 2024, month = 2, day = 25\<rparr>"
  by (simp add: most_recent_sunday_def step_back_to_sunday.simps calendar_eval)

text \<open>
  C7 as stated ("for every anchor date") fails at the six dates before the first
  Sunday: from Monday 0001-01-01 the loop steps back past \<^verbatim>\<open>date.min\<close> and the
  subtraction raises.
\<close>

theorem most_recent_sunday_first_week_counterexample:
  "valid_date \<lparr>year = 1, month = 1, day = 1\<rparr>
   \<and> most_recent_sunday \<lparr>year = 2024, month = 6, day = 12\<rparr>
         (Some \<lparr>year = 1, month = 1, day = 1\<rparr>)
       = Inl OverflowError"
  by (simp add: most_recent_sunday_def step_back_to_sunday.simps calendar_eval valid_date_def)

lemma most_recent_sunday_overflow:
  assumes "valid_date d" and "toordinal d < 7"
  shows "most_recent_sunday today (Some d) = Inl OverflowError"
  using step_back_overflows[OF assms] by (simp add: most_recent_sunday_def)

subsection \<open>Evaluation of the model on concrete inputs\<close>

lemma replicate_num: "replicate (numeral k) x = x # replicate (pred_numeral k) x"
  by (simp add: numeral_eq_Suc)

lemmas parse_eval = to_num_def parse_float_def parse_decimal_def parse_exponent_def
  split_sign_def pow10_def digits_val_def digit_val_def is_digit_def c_isspace_def
  to_ascii_space_def lower_def Let_def dec.simps digit_char_def str_int_def

lemmas pipeline_eval = replicate_num run_export_def payroll_ucla_def mask_ucla_def
  contains_ci_def map_column_def add_column_def prepare_payroll_def normalize_name_parts_def
  usable_def astype_str_def canonicalize_def strip_def is_space_def summary_def
  payroll_records_def groupby_sum_def group_key_def nanadd_def record_sort_key_def
  name_sort_key_def rate_sort_key_def num_of_def fillna0_def assign_df_slim_def
  roster_entry_def entry_key_def dup_cell_def name_key_def merge_left_def matches_def
  summary_key_def final_rows_def sort_values_def line_id_def zero_pad_def strftime_Ymd_def
  strftime_mdY_def workbook_def unmatched_def isna_def

lemma run_export_example:
  "run_export ex_repr ex_payroll ex_roster ''Client Name'' ''Reg H (e)'' ''OT H (e)''
     ''DT H (e)'' ''Pay Rate'' (Some ''First Name'') (Some ''Last Name'') None
     ''Employee Name'' ''Pay Rate'' ''Assign No'' \<lparr>year = 2024, month = 6, day = 9\<rparr>
   = Inr [(''Export'', ExportSheet
            [\<lparr>Assignment = CStr ''A100'', Employee_Name = CStr ''Jane Doe'', Pay_Rate = Finite 20,
              Work_Date = ''06/09/2024'', Weekending_Date = ''06/09/2024'',
              Hours_Sum = Finite (15 / 2), Unique_Line_ID = ''202406090001''\<rparr>,
             \<lparr>Assignment = CFloat NaN, Employee_Name = CStr ''John Roe'', Pay_Rate = Finite 25,
              Work_Date = ''06/09/2024'', Weekending_Date = ''06/09/2024'',
              Hours_Sum = Finite (2469 / 2), Unique_Line_ID = ''202406090002''\<rparr>]),
          (''Unmatched'', UnmatchedSheet
            [\<lparr>EmployeeName = CStr ''John Roe'', PayRate = Finite 25,
              Hours = Finite (2469 / 2)\<rparr>])]"
  by (simp add: pipeline_eval parse_eval ex_payroll_def ex_roster_def ex_repr_def)

subsection \<open>C6: the client filter\<close>

lemma contains_ci_iff:
  "str_contains (lower pat) (lower s) \<longleftrightarrow> (\<exists>p u q. s = p @ u @ q \<and> lower u = lower pat)"
proof
  assume "str_contains (lower pat) (lower s)"
  then obtain a b where "lower s = a @ lower pat @ b"
    by (auto simp add: str_contains_iff)
  then have "map lower_char s = a @ (lower pat @ b)" by (simp add: lower_def)
  then obtain p vs where 1: "s = p @ vs" "a = map lower_char p" "lower pat @ b = map lower_char vs"
    by (auto simp add: map_eq_append_conv)
  from 1(3) obtain u q where 2: "vs = u @ q" "lower pat = map lower_char u"
    by (metis map_eq_append_conv)
  show "\<exists>p u q. s = p @ u @ q \<and> lower u = lower pat"
    using 1(1) 2 by (auto simp add: lower_def)
next
  assume "\<exists>p u q. s = p @ u @ q \<and> lower u = lower pat"
  then obtain p u q where "s = p @ u @ q" "lower u = lower pat" by blast
  then have "lower s = lower p @ lower pat @ lower q" by (simp add: lower_def)
  then show "str_contains (lower pat) (lower s)"
    by (auto simp add: str_contains_iff)
qed

lemma filter_zip_map:
  "map fst (filter snd (zip xs (map P xs))) = filter P xs"
  by (induction xs) auto

lemma payroll_ucla_rows:
  assumes "client_col \<in> set (columns payroll_df)"
  shows "\<exists>df. payroll_ucla fr payroll_df client_col = Inr df
           \<and> columns df = columns payroll_df
           \<and> rows df = map (\<lambda>r. r(client_col := CStr (py_str fr (r client_col))))
                (filter (\<lambda>r. str_contains (lower ''UCLA'') (lower (py_str fr (r client_col))))
                   (rows payroll_df))"
proof -
  let ?f = "\<lambda>r. r(client_col := CStr (py_str fr (r client_col)))"
  let ?df = "map_column client_col (\<lambda>x. CStr (py_str fr x)) payroll_df"
  have r: "rows ?df = map ?f (rows payroll_df)" by (simp add: map_column_def)
  have m: "mask_ucla ?df client_col
           = map (\<lambda>r. contains_ci ''UCLA'' (r client_col)) (rows ?df)"
    by (simp add: mask_ucla_def)
  have "map fst (filter snd (zip (rows ?df) (mask_ucla ?df client_col)))
          = filter (\<lambda>r. contains_ci ''UCLA'' (r client_col)) (rows ?df)"
    unfolding m by (rule filter_zip_map)
  also have "\<dots> = map ?f (filter (\<lambda>r. str_contains (lower ''UCLA'') (lower (py_str fr (r client_col))))
                   (rows payroll_df))"
    unfolding r by (simp add: filter_map o_def contains_ci_def)
  finally show ?thesis using assms
    by (simp add: payroll_ucla_def Let_def map_column_def)
qed

text \<open>
  C6. A payroll row is kept exactly when its client value, as a string, contains
  \<open>UCLA\<close> up to case: the kept rows are the rows with such a value, in their order, with
  the client cell replaced by its string. A missing client value (\<^verbatim>\<open>None\<close> or NaN)
  never matches. The case of the pattern does not matter; \<open>UCLA Extension\<close> matches
  and \<open>UCSB\<close> does not.
\<close>

theorem payroll_ucla_filter:
  "(client_col \<in> set (columns payroll_df) \<longrightarrow>
      (\<exists>df. payroll_ucla fr payroll_df client_col = Inr df
          \<and> columns df = columns payroll_df
          \<and> rows df = map (\<lambda>r. r(client_col := CStr (py_str fr (r client_col))))
               (filter (\<lambda>r. \<exists>p u q. py_str fr (r client_col) = p @ u @ q
                                    \<and> lower u = lower ''UCLA'')
                  (rows payroll_df))))
   \<and> \<not> (\<exists>p u q. py_str fr CNone = p @ u @ q \<and> lower u = lower ''UCLA'')
   \<and> \<not> (\<exists>p u q. py_str fr (CFloat NaN) = p @ u @ q \<and> lower u = lower ''UCLA'')
   \<and> contains_ci ''ucla'' x = contains_ci ''UCLA'' x
   \<and> contains_ci ''ucla'' (CStr ''UCLA Extension'')
   \<and> \<not> contains_ci ''ucla'' (CStr ''UCSB'')"
proof (intro conjI impI)
  assume "client_col \<in> set (columns payroll_df)"
  from payroll_ucla_rows[OF this, of fr]
  show "\<exists>df. payroll_ucla fr payroll_df client_col = Inr df
          \<and> columns df = columns payroll_df
          \<and> rows df = map (\<lambda>r. r(client_col := CStr (py_str fr (r client_col))))
               (filter (\<lambda>r. \<exists>p u q. py_str fr (r client_col) = p @ u @ q
                                    \<and> lower u = lower ''UCLA'')
                  (rows payroll_df))"
    unfolding contains_ci_iff .
next
  show "\<not> (\<exists>p u q. py_str fr CNone = p @ u @ q \<and> lower u = lower ''UCLA'')"
    unfolding contains_ci_iff[symmetric] by (simp add: lower_def)
  show "\<not> (\<exists>p u q. py_str fr (CFloat NaN) = p @ u @ q \<and> lower u = lower ''UCLA'')"
    unfolding contains_ci_iff[symmetric] by (simp add: lower_def)
  have "lower ''ucla'' = lower ''UCLA''" by (simp add: lower_def)
  then show "contains_ci ''ucla'' x = contains_ci ''UCLA'' x"
    unfolding contains_ci_def by (simp only:)
  show "contains_ci ''ucla'' (CStr ''UCLA Extension'')"
    by (simp add: contains_ci_def lower_def)
  show "\<not> contains_ci ''ucla'' (CStr ''UCSB'')"
    by (simp add: contains_ci_def lower_def)
qed

theorem payroll_ucla_filter_witness:
  "''Client Name'' \<in> set (columns ex_payroll)
   \<and> (\<exists>df. payroll_ucla ex_repr ex_payroll ''Client Name'' = Inr df
          \<and> map (\<lambda>r. r ''Client Name'') (rows df)
              = [CStr ''UCLA Extension'', CStr ''ucla health'', CStr ''UCLA Extension''])"
proof -
  have c: "''Client Name'' \<in> set (columns ex_payroll)"
    by (simp add: ex_payroll_def)
  from payroll_ucla_filter[of "''Client Name''" ex_payroll ex_repr CNone,
      THEN conjunct1, THEN mp, OF c]
  obtain df where df: "payroll_ucla ex_repr ex_payroll ''Client Name'' = Inr df"
    "rows df = map (\<lambda>r. r(''Client Name'' := CStr (py_str ex_repr (r ''Client Name''))))
               (filter (\<lambda>r. \<exists>p u q. py_str ex_repr (r ''Client Name'') = p @ u @ q
                                    \<and> lower u = lower ''UCLA'')
                  (rows ex_payroll))"
    by (elim exE conjE)
  have "map (\<lambda>r. r ''Client Name'') (rows df)
              = [CStr ''UCLA Extension'', CStr ''ucla health'', CStr ''UCLA Extension'']"
    unfolding df(2) contains_ci_iff[symmetric]
    by (simp add: ex_payroll_def lower_def)
  with c df(1) show ?thesis by (intro conjI exI[of _ df])
qed

subsection \<open>C5: numeric coercion\<close>






subsection \<open>C4: aggregation\<close>

lemma group_key_update [simp]: "group_key (g\<lparr>Hours := h\<rparr>) = group_key g"
  by (simp add: group_key_def)






lemma filter_key_empty:
  "k \<notin> set (map group_key rs) \<Longrightarrow> filter (\<lambda>r. group_key r = k) rs = []"
  by (induction rs) auto












end
